theory Spec2Isabelle
  imports Complex_Main "HOL-Library.Sublist" "HOL-Library.Word"
begin

unbundle bit_operations_syntax

section \<open>Python values shared by both modules\<close>

text \<open>
  Exceptions that the two modules can let escape. \<open>TypeError\<close> is a call with a keyword
  the callee does not declare, \<open>ValueError\<close> is \<open>int(text, 16)\<close> on text that is not a
  number, \<open>IndexError\<close> is \<open>sentence[0]\<close> on the empty string, \<open>SSLError\<close> stands for
  whatever the unguarded TLS set-up in \<open>connect\<close> raises, and \<open>ReconnectFailed\<close> is the
  plain \<open>Exception\<close> raised by \<open>reconnect\<close>. \<open>time.sleep\<close> raises \<open>ValueError\<close> for a
  negative duration and \<open>OverflowError\<close> for one that does not fit its clock; \<open>OSError\<close> is
  the operating system refusing a duration that Python accepted.
\<close>

datatype exn =
  TypeError | ValueError | IndexError | SSLError | ReconnectFailed | OverflowError | OSError

text \<open>
  Strings are lists of 8-bit characters: the sentences and responses handled here are
  ASCII / ISO-8859-1 text. \<open>CR\<close> and \<open>LF\<close> are the two characters of \<open>'\r\n'\<close>.
\<close>

definition CR :: char where
  "CR = CHR 0x0D"

definition LF :: char where
  "LF = CHR 0x0A"

definition CRLF :: string where
  "CRLF = [CR, LF]"

subsection \<open>The built-in \<open>int(text, 16)\<close>\<close>

text \<open>
  \<open>int(text, 16)\<close> skips surrounding whitespace, takes an optional sign, an optional
  \<open>0x\<close>/\<open>0X\<close> prefix (after which one underscore may follow), and then hexadecimal digits
  in which single underscores may separate digits. Anything else is a \<open>ValueError\<close>,
  here \<open>None\<close>. Within 8-bit text the whitespace characters are TAB, LF, VT, FF, CR,
  space, NEL (0x85) and NBSP (0xA0).
\<close>

definition is_space :: "char \<Rightarrow> bool" where
  "is_space c = ((of_char c :: nat) \<in> set [9, 10, 11, 12, 13, 32, 133, 160])"

definition hex_digit :: "char \<Rightarrow> int option" where
  "hex_digit c =
     (let n = (of_char c :: int) in
      if 48 \<le> n \<and> n \<le> 57 then Some (n - 48)
      else if 97 \<le> n \<and> n \<le> 102 then Some (n - 87)
      else if 65 \<le> n \<and> n \<le> 70 then Some (n - 55)
      else None)"

fun scan_digits :: "bool \<Rightarrow> int \<Rightarrow> string \<Rightarrow> (int \<times> string) option" where
  "scan_digits prev_us acc [] = (if prev_us then None else Some (acc, []))"
| "scan_digits prev_us acc (c # cs) =
     (if c = CHR ''_'' then (if prev_us then None else scan_digits True acc cs)
      else (case hex_digit c of
              Some d \<Rightarrow> scan_digits False (16 * acc + d) cs
            | None \<Rightarrow> if prev_us then None else Some (acc, c # cs)))"

definition strip_sign :: "string \<Rightarrow> bool \<times> string" where
  "strip_sign s =
     (case s of
        c # r \<Rightarrow>
          if c = CHR ''+'' then (False, r)
          else if c = CHR ''-'' then (True, r)
          else (False, s)
      | [] \<Rightarrow> (False, s))"

definition strip_prefix16 :: "string \<Rightarrow> string" where
  "strip_prefix16 s =
     (case s of
        z # x # r \<Rightarrow>
          if z = CHR ''0'' \<and> (x = CHR ''x'' \<or> x = CHR ''X'')
          then (case r of u # r' \<Rightarrow> if u = CHR ''_'' then r' else r | [] \<Rightarrow> r)
          else s
      | _ \<Rightarrow> s)"

definition py_int16 :: "string \<Rightarrow> int option" where
  "py_int16 s =
     (let (neg, s2) = strip_sign (dropWhile is_space s);
          s3 = strip_prefix16 s2
      in if s3 \<noteq> [] \<and> hd s3 = CHR ''_'' then None
         else (case scan_digits False 0 s3 of
                 None \<Rightarrow> None
               | Some (v, rest) \<Rightarrow>
                   if length rest = length s3 then None
                   else if dropWhile is_space rest \<noteq> [] then None
                   else Some (if neg then - v else v)))"

subsection \<open>String operations used by the modules\<close>

text \<open>\<open>sub in text\<close>: \<open>sub\<close> occurs as a contiguous substring of \<open>text\<close>.\<close>

fun str_in :: "string \<Rightarrow> string \<Rightarrow> bool" where
  "str_in sub [] = (sub = [])"
| "str_in sub (c # cs) = (prefix sub (c # cs) \<or> str_in sub cs)"

text \<open>\<open>text[-n:]\<close>: the last \<open>n\<close> characters, or all of \<open>text\<close> when it is shorter.\<close>

definition py_last :: "nat \<Rightarrow> string \<Rightarrow> string" where
  "py_last n s = drop (length s - n) s"

text \<open>\<open>text[:-n]\<close>: everything but the last \<open>n\<close> characters.\<close>

definition py_butlast :: "nat \<Rightarrow> string \<Rightarrow> string" where
  "py_butlast n s = take (length s - n) s"

text \<open>
  \<open>text.rsplit(sep, 1)\<close> for a one-character separator: the parts before and after the
  last occurrence of \<open>sep\<close>. Without an occurrence the result has one element and the
  two-name unpacking of the caller fails; that is \<open>None\<close>.
\<close>

fun rsplit1 :: "char \<Rightarrow> string \<Rightarrow> (string \<times> string) option" where
  "rsplit1 sep [] = None"
| "rsplit1 sep (c # cs) =
     (case rsplit1 sep cs of
        Some (d, t) \<Rightarrow> Some (c # d, t)
      | None \<Rightarrow> if c = sep then Some ([], cs) else None)"

section \<open>nmea\_parser.py\<close>

definition NMEA_DEFAULT_MAX_LENGTH :: int where
  "NMEA_DEFAULT_MAX_LENGTH = 82"

definition NMEA_DEFAULT_MIN_LENGTH :: int where
  "NMEA_DEFAULT_MIN_LENGTH = 3"

definition NMEA_CHECKSUM_SEPERATOR :: char where
  "NMEA_CHECKSUM_SEPERATOR = CHR ''*''"

text \<open>The parser object; the four log callables have no effect on any result.\<close>

record NMEAParser =
  nmea_max_length :: int
  nmea_min_length :: int

text \<open>
  A keyword argument of a call: its name and what is passed. \<open>NMEAParser.__init__\<close>
  declares the parameters \<open>logerr\<close>, \<open>logwarn\<close>, \<open>loginfo\<close> and \<open>logdebug\<close> only, so a
  call naming any other keyword raises \<open>TypeError\<close> before the body runs. The body
  stores the two module defaults.
\<close>

datatype arg = Callable | IntArg int

definition NMEAParser_params :: "string list" where
  "NMEAParser_params = [''logerr'', ''logwarn'', ''loginfo'', ''logdebug'']"

definition NMEAParser_init :: "(string \<times> arg) list \<Rightarrow> exn + NMEAParser" where
  "NMEAParser_init kwargs =
     (if list_all (\<lambda>(k, v). k \<in> set NMEAParser_params) kwargs
      then Inr \<lparr>nmea_max_length = NMEA_DEFAULT_MAX_LENGTH,
                nmea_min_length = NMEA_DEFAULT_MIN_LENGTH\<rparr>
      else Inl TypeError)"

text \<open>The checksum loop: \<open>for char in chars: calculated_checksum ^= ord(char)\<close>.\<close>

definition calculated_checksum :: "string \<Rightarrow> int" where
  "calculated_checksum chars = fold (\<lambda>char acc. acc XOR of_char char) chars 0"

definition is_valid_sentence :: "NMEAParser \<Rightarrow> string \<Rightarrow> exn + bool" where
  "is_valid_sentence p sentence =
     (if int (length sentence) > nmea_max_length p then Inr False
      else if int (length sentence) < nmea_min_length p then Inr False
      else (case sentence of
              [] \<Rightarrow> Inl IndexError
            | c0 # _ \<Rightarrow>
                if c0 \<noteq> CHR ''$'' \<and> c0 \<noteq> CHR ''!'' then Inr False
                else if py_last 2 sentence \<noteq> CRLF then Inr False
                else if NMEA_CHECKSUM_SEPERATOR \<notin> set sentence then Inr False
                else (case rsplit1 NMEA_CHECKSUM_SEPERATOR sentence of
                        None \<Rightarrow> Inl ValueError
                      | Some (data, expected_checksum_str) \<Rightarrow>
                          (case py_int16 expected_checksum_str of
                             None \<Rightarrow> Inl ValueError
                           | Some expected_checksum \<Rightarrow>
                               if expected_checksum \<noteq> calculated_checksum (drop 1 data)
                               then Inr False
                               else Inr True))))"

subsection \<open>The checksum rule in the specification's words\<close>

text \<open>
  The text after the last \<open>*\<close>, the characters strictly between the leading sentinel and
  the last \<open>*\<close>, and the exclusive-or of the byte values of a run of characters. These
  follow the specification, not the code, and are compared with the code below.
\<close>

definition spec_after_last_star :: "string \<Rightarrow> string" where
  "spec_after_last_star s = rev (takeWhile (\<lambda>c. c \<noteq> CHR ''*'') (rev s))"

definition spec_between :: "string \<Rightarrow> string" where
  "spec_between s = tl (rev (tl (dropWhile (\<lambda>c. c \<noteq> CHR ''*'') (rev s))))"

definition spec_xor :: "string \<Rightarrow> int" where
  "spec_xor cs = foldr (\<lambda>c a. of_char c XOR a) cs 0"

definition structurally_ok :: "NMEAParser \<Rightarrow> string \<Rightarrow> bool" where
  "structurally_ok p s \<longleftrightarrow>
     int (length s) \<le> nmea_max_length p \<and> nmea_min_length p \<le> int (length s) \<and>
     (prefix ''$'' s \<or> prefix ''!'' s) \<and> suffix CRLF s \<and> CHR ''*'' \<in> set s"

section \<open>ntrip\_client.py\<close>

type_synonym bytes = "8 word list"

definition CHUNK_SIZE :: nat where
  "CHUNK_SIZE = 1024"

definition SOURCETABLE_RESPONSES :: "string list" where
  "SOURCETABLE_RESPONSES = [''SOURCETABLE 200 OK'']"

definition SUCCESS_RESPONSES :: "string list" where
  "SUCCESS_RESPONSES = [''ICY 200 OK'', ''HTTP/1.0 200 OK'', ''HTTP/1.1 200 OK'']"

definition UNAUTHORIZED_RESPONSES :: "string list" where
  "UNAUTHORIZED_RESPONSES = [''401'']"

text \<open>\<open>any(marker in response for marker in markers)\<close>.\<close>

definition any_in :: "string list \<Rightarrow> string \<Rightarrow> bool" where
  "any_in markers response = list_ex (\<lambda>marker. str_in marker response) markers"

subsection \<open>Constructor arguments and the client object\<close>

record config =
  cfg_host :: string
  cfg_port :: int
  cfg_mountpoint :: string
  cfg_ntrip_version :: "string option"
  cfg_username :: "string option"
  cfg_password :: "string option"
  cfg_reconnect_attempt_max :: int
  cfg_reconnect_attempt_wait_seconds :: real
  cfg_rtcm_timeout_seconds :: real
  cfg_nmea_min_length :: int
  cfg_nmea_max_length :: int
  cfg_use_ssl :: bool

text \<open>
  The attributes of an \<open>NTRIPClient\<close>. The two socket handles are not part of the
  record: what the transport does at each call is an input of the operations below.
  \<open>basic_credentials\<close> keeps the pair that the source encodes as Base64 text;
  \<open>shutdown_flag\<close> is \<open>_shutdown\<close>. Clock readings are real numbers. The type
  parameter is the state of the RTCM parser, whose module is not part of the sources.
\<close>

record 'p NTRIPClient =
  host :: string
  port :: int
  mountpoint :: string
  ntrip_version :: "string option"
  basic_credentials :: "(string \<times> string) option"
  rtcm_parser :: 'p
  nmea_parser :: NMEAParser
  ssl :: bool
  shutdown_flag :: bool
  connected :: bool
  reconnect_attempt_count :: int
  nmea_send_failed_count :: int
  nmea_send_failed_max :: int
  read_zero_bytes_count :: int
  read_zero_bytes_max :: int
  first_rtcm_received :: bool
  recv_rtcm_last_packet_timestamp :: real
  reconnect_attempt_max :: int
  reconnect_attempt_wait_seconds :: real
  rtcm_timeout_seconds :: real

text \<open>
  \<open>__init__\<close>: the RTCM parser is built first (its constructor is outside the sources,
  so its outcome is an argument), then \<open>NMEAParser\<close> is called with the two length
  keywords and the four log callables, then the remaining attributes are assigned.
\<close>

definition NTRIPClient_init :: "(exn + 'p) \<Rightarrow> config \<Rightarrow> exn + 'p NTRIPClient" where
  "NTRIPClient_init new_rtcm_parser cfg =
     (case new_rtcm_parser of
        Inl e \<Rightarrow> Inl e
      | Inr rp \<Rightarrow>
          (case NMEAParser_init
                  [(''nmea_min_length'', IntArg (cfg_nmea_min_length cfg)),
                   (''nmea_max_length'', IntArg (cfg_nmea_max_length cfg)),
                   (''logerr'', Callable), (''logwarn'', Callable),
                   (''loginfo'', Callable), (''logdebug'', Callable)] of
             Inl e \<Rightarrow> Inl e
           | Inr np \<Rightarrow>
               Inr \<lparr>host = cfg_host cfg,
                    port = cfg_port cfg,
                    mountpoint = cfg_mountpoint cfg,
                    ntrip_version = cfg_ntrip_version cfg,
                    basic_credentials =
                      (case (cfg_username cfg, cfg_password cfg) of
                         (Some u, Some pw) \<Rightarrow> Some (u, pw)
                       | _ \<Rightarrow> None),
                    rtcm_parser = rp,
                    nmea_parser = np,
                    ssl = cfg_use_ssl cfg,
                    shutdown_flag = False,
                    connected = False,
                    reconnect_attempt_count = 0,
                    nmea_send_failed_count = 0,
                    nmea_send_failed_max = 5,
                    read_zero_bytes_count = 0,
                    read_zero_bytes_max = 5,
                    first_rtcm_received = False,
                    recv_rtcm_last_packet_timestamp = 0,
                    reconnect_attempt_max = cfg_reconnect_attempt_max cfg,
                    reconnect_attempt_wait_seconds = cfg_reconnect_attempt_wait_seconds cfg,
                    rtcm_timeout_seconds = cfg_rtcm_timeout_seconds cfg\<rparr>))"

subsection \<open>The transport, as seen by the client\<close>

text \<open>
  What the network does during one call of \<open>connect\<close>: whether the socket connects,
  whether the TLS set-up and wrapping go through (consulted only when \<open>ssl\<close> is set;
  that code is not inside a \<open>try\<close>), whether the request is sent, and the decoded
  response (\<open>None\<close> when \<open>recv\<close> raises).
\<close>

record attempt =
  socket_connects :: bool
  tls_wraps :: bool
  request_sent :: bool
  server_response :: "string option"

text \<open>
  The outcomes of all handshakes and of all NMEA sends, in the order in which the client
  performs them, with the number of each performed so far; and whether the operating
  system sleeps and returns when asked for a duration that Python accepts.
\<close>

record world =
  attempts :: "nat \<Rightarrow> attempt"
  made :: nat
  sends :: "nat \<Rightarrow> bool"
  sent :: nat
  os_sleeps :: "real \<Rightarrow> bool"

text \<open>
  \<open>time.sleep(secs)\<close>: the duration is converted to a signed 64-bit count of nanoseconds,
  which raises \<open>OverflowError\<close> when it does not fit; a negative duration raises
  \<open>ValueError\<close>; otherwise the operating system sleeps, or refuses with \<open>OSError\<close>.
  \<open>None\<close> means that the call returns. Durations are real numbers here.
\<close>

definition time_sleep :: "world \<Rightarrow> real \<Rightarrow> exn option" where
  "time_sleep w secs =
     (if secs * 10 ^ 9 < - (2 ^ 63) \<or> 2 ^ 63 - 1 < secs * 10 ^ 9 then Some OverflowError
      else if secs < 0 then Some ValueError
      else if os_sleeps w secs then None
      else Some OSError)"

subsection \<open>connect, disconnect, reconnect, shutdown\<close>

definition connect :: "attempt \<Rightarrow> 'p NTRIPClient \<Rightarrow> (exn + bool) \<times> 'p NTRIPClient" where
  "connect a s =
     (if \<not> socket_connects a then (Inr False, s)
      else if ssl s \<and> \<not> tls_wraps a then (Inl SSLError, s)
      else if \<not> request_sent a then (Inr False, s)
      else (case server_response a of
              None \<Rightarrow> (Inr False, s)
            | Some response \<Rightarrow>
                let s1 = (if any_in SUCCESS_RESPONSES response
                          then s\<lparr>connected := True\<rparr> else s);
                    known_error =
                      (if any_in SOURCETABLE_RESPONSES response then True
                       else if any_in UNAUTHORIZED_RESPONSES response then True
                       else if \<not> connected s1 \<and>
                               (ntrip_version s1 = None \<or> ntrip_version s1 = Some [])
                       then True
                       else False)
                in if known_error \<or> \<not> connected s1 then (Inr False, s1)
                   else (Inr True, s1)))"

text \<open>Exceptions of the socket shutdown and close are caught and logged.\<close>

definition disconnect :: "'p NTRIPClient \<Rightarrow> 'p NTRIPClient" where
  "disconnect s = s\<lparr>connected := False\<rparr>"

text \<open>
  The \<open>while not self._shutdown\<close> loop of \<open>reconnect\<close>. The sleep between attempts has
  no effect on the state when it returns; when it raises, the exception leaves the loop
  with the counter as it stands. The last branch is the fall-through of the
  \<open>if\<close>/\<open>elif\<close> chain back to the loop head.
\<close>

function reconnect_loop ::
  "world \<times> 'p NTRIPClient \<Rightarrow> (exn + unit) \<times> world \<times> 'p NTRIPClient" where
  "reconnect_loop (w, s) =
     (if shutdown_flag s then (Inr (), w, s)
      else
        (case connect (attempts w (made w))
                (disconnect (s\<lparr>reconnect_attempt_count := reconnect_attempt_count s + 1\<rparr>)) of
           (Inl e, s3) \<Rightarrow> (Inl e, w\<lparr>made := Suc (made w)\<rparr>, s3)
         | (Inr connect_success, s3) \<Rightarrow>
             if \<not> connect_success \<and> reconnect_attempt_count s3 < reconnect_attempt_max s3
             then (case time_sleep w (reconnect_attempt_wait_seconds s3) of
                     Some e \<Rightarrow> (Inl e, w\<lparr>made := Suc (made w)\<rparr>, s3)
                   | None \<Rightarrow> reconnect_loop (w\<lparr>made := Suc (made w)\<rparr>, s3))
             else if reconnect_attempt_count s3 \<ge> reconnect_attempt_max s3
             then (Inl ReconnectFailed, w\<lparr>made := Suc (made w)\<rparr>,
                   s3\<lparr>reconnect_attempt_count := 0\<rparr>)
             else if connect_success
             then (Inr (), w\<lparr>made := Suc (made w)\<rparr>, s3\<lparr>reconnect_attempt_count := 0\<rparr>)
             else reconnect_loop (w\<lparr>made := Suc (made w)\<rparr>, s3)))"
  by pat_completeness auto
termination
  by (relation "measure (\<lambda>(w, s). nat (reconnect_attempt_max s - reconnect_attempt_count s))")
     (auto simp: connect_def disconnect_def Let_def split: if_splits option.splits)

declare reconnect_loop.simps [simp del]

definition reconnect ::
  "world \<times> 'p NTRIPClient \<Rightarrow> (exn + unit) \<times> world \<times> 'p NTRIPClient" where
  "reconnect ws = (if connected (snd ws) then reconnect_loop ws else (Inr (), ws))"

definition shutdown :: "'p NTRIPClient \<Rightarrow> 'p NTRIPClient" where
  "shutdown s = disconnect (s\<lparr>shutdown_flag := True\<rparr>)"

subsection \<open>send\_nmea\<close>

text \<open>
  The rewriting of the sentence end: a sentence ending in the four characters backslash,
  \<open>r\<close>, backslash, \<open>n\<close> gets them replaced by CR LF; any other sentence not ending in
  CR LF gets CR LF appended.
\<close>

definition ESCAPED_CRLF :: string where
  "ESCAPED_CRLF = [CHR 0x5C, CHR ''r'', CHR 0x5C, CHR ''n'']"

definition fix_ending :: "string \<Rightarrow> string" where
  "fix_ending sentence =
     (if py_last 4 sentence = ESCAPED_CRLF then py_butlast 4 sentence @ CRLF
      else if py_last 2 sentence \<noteq> CRLF then sentence @ CRLF
      else sentence)"

text \<open>
  \<open>send_nmea\<close> calls itself after a reconnect. The first argument bounds the number of
  nested activations: with \<open>depth\<close> activations allowed, \<open>None\<close> means that the call
  would need one more. An exception of the validator or of \<open>reconnect\<close> leaves the call.
\<close>

fun send_nmea ::
  "nat \<Rightarrow> string \<Rightarrow> world \<times> 'p NTRIPClient \<Rightarrow>
   ((exn + unit) \<times> world \<times> 'p NTRIPClient) option" where
  "send_nmea 0 sentence ws = None"
| "send_nmea (Suc depth) sentence (w, s) =
     (if \<not> connected s then Some (Inr (), w, s)
      else
        let sentence = fix_ending sentence in
        (case is_valid_sentence (nmea_parser s) sentence of
           Inl e \<Rightarrow> Some (Inl e, w, s)
         | Inr False \<Rightarrow> Some (Inr (), w, s)
         | Inr True \<Rightarrow>
             if sends w (sent w) then Some (Inr (), w\<lparr>sent := Suc (sent w)\<rparr>, s)
             else
               let w1 = w\<lparr>sent := Suc (sent w)\<rparr>;
                   s1 = s\<lparr>nmea_send_failed_count := nmea_send_failed_count s + 1\<rparr>
               in if nmea_send_failed_count s1 \<ge> nmea_send_failed_max s1
                  then (case reconnect (w1, s1) of
                          (Inl e, w2, s2) \<Rightarrow> Some (Inl e, w2, s2)
                        | (Inr u, w2, s2) \<Rightarrow>
                            send_nmea depth sentence
                              (w2, s2\<lparr>nmea_send_failed_count := 0\<rparr>))
                  else Some (Inr (), w1, s1)))"

subsection \<open>recv\_rtcm\<close>

text \<open>
  The result of the non-consuming probe in \<open>_socket_is_open\<close>, and the method itself.
\<close>

datatype peek = Peeked bytes | BlockingIO | ConnectionReset | Timeout | OtherError

fun socket_is_open :: "peek \<Rightarrow> bool" where
  "socket_is_open (Peeked data) = (if length data = 0 then False else True)"
| "socket_is_open BlockingIO = True"
| "socket_is_open ConnectionReset = False"
| "socket_is_open Timeout = True"
| "socket_is_open OtherError = False"

text \<open>
  What the transport and the clock do during one call of \<open>recv_rtcm\<close>: the clock at the
  staleness test, whether \<open>select\<close> reports the socket readable, the successive results
  of \<open>recv(_CHUNK_SIZE)\<close>, the result of the probe, and the clock when data is noted.
\<close>

datatype recv_event = Chunk bytes | RecvError

record rtcm_io =
  time_at_entry :: real
  readable :: bool
  recvs :: "recv_event list"
  probe :: peek
  time_at_data :: real

text \<open>
  The \<open>while True\<close> read loop. It ends with a chunk shorter than the chunk size or with
  an exception of \<open>recv\<close>; the Boolean tells which. \<open>None\<close>: the listed results are used up
  and the loop is still reading.
\<close>

fun read_loop :: "recv_event list \<Rightarrow> bytes \<Rightarrow> (bytes \<times> bool) option" where
  "read_loop [] data = None"
| "read_loop (Chunk chunk # rest) data =
     (if length chunk < CHUNK_SIZE then Some (data @ chunk, False)
      else read_loop rest (data @ chunk))"
| "read_loop (RecvError # rest) data = Some (data, True)"

text \<open>
  Lines 296 to 312 of \<open>recv_rtcm\<close>: counting empty reads or noting the arrival of data,
  then handing the data to the RTCM parser. \<open>parse\<close> is \<open>RTCMParser.parse\<close>, which is
  outside the sources: it maps the parser state and the data to the frames and the new
  parser state.
\<close>

definition note_and_parse ::
  "('p \<Rightarrow> bytes \<Rightarrow> 'f list \<times> 'p) \<Rightarrow> rtcm_io \<Rightarrow> bytes \<Rightarrow> world \<times> 'p NTRIPClient \<Rightarrow>
   (exn + 'f list) \<times> world \<times> 'p NTRIPClient" where
  "note_and_parse parse io data ws =
     (case ws of (w, s) \<Rightarrow>
        if length data = 0 then
          let s1 = s\<lparr>read_zero_bytes_count := read_zero_bytes_count s + 1\<rparr>
          in if read_zero_bytes_count s1 \<ge> read_zero_bytes_max s1
             then (case reconnect (w, s1) of
                     (Inl e, w2, s2) \<Rightarrow> (Inl e, w2, s2)
                   | (Inr u, w2, s2) \<Rightarrow> (Inr [], w2, s2\<lparr>read_zero_bytes_count := 0\<rparr>))
             else (Inr [], w, s1)
        else
          let s1 = s\<lparr>recv_rtcm_last_packet_timestamp := time_at_data io,
                     first_rtcm_received := True\<rparr>
          in (case parse (rtcm_parser s1) data of
                (frames, p) \<Rightarrow> (Inr frames, w, s1\<lparr>rtcm_parser := p\<rparr>)))"

text \<open>
  Lines 267 to 271: when data was received before and the last packet is older than the
  timeout, reconnect and clear the flag.
\<close>

definition stale_check ::
  "rtcm_io \<Rightarrow> world \<times> 'p NTRIPClient \<Rightarrow> (exn + unit) \<times> world \<times> 'p NTRIPClient" where
  "stale_check io ws =
     (case ws of (w, s) \<Rightarrow>
        if time_at_entry io - rtcm_timeout_seconds s \<ge> recv_rtcm_last_packet_timestamp s
           \<and> first_rtcm_received s
        then (case reconnect (w, s) of
                (Inl e, w2, s2) \<Rightarrow> (Inl e, w2, s2)
              | (Inr u, w2, s2) \<Rightarrow> (Inr (), w2, s2\<lparr>first_rtcm_received := False\<rparr>))
        else (Inr (), w, s))"

definition recv_rtcm ::
  "('p \<Rightarrow> bytes \<Rightarrow> 'f list \<times> 'p) \<Rightarrow> rtcm_io \<Rightarrow> world \<times> 'p NTRIPClient \<Rightarrow>
   ((exn + 'f list) \<times> world \<times> 'p NTRIPClient) option" where
  "recv_rtcm parse io ws =
     (if \<not> connected (snd ws) then Some (Inr [], ws)
      else
        (case stale_check io ws of
           (Inl e, ws1) \<Rightarrow> Some (Inl e, ws1)
         | (Inr u, ws1) \<Rightarrow>
             if \<not> readable io then Some (Inr [], ws1)
             else
               (case read_loop (recvs io) [] of
                  None \<Rightarrow> None
                | Some (data, failed) \<Rightarrow>
                    if failed \<and> \<not> socket_is_open (probe io)
                    then (case reconnect ws1 of
                            (Inl e, ws2) \<Rightarrow> Some (Inl e, ws2)
                          | (Inr u, ws2) \<Rightarrow> Some (Inr [], ws2))
                    else Some (note_and_parse parse io data ws1))))"

section \<open>Concrete sessions used in the examples\<close>

definition default_parser :: NMEAParser where
  "default_parser = \<lparr>nmea_max_length = 82, nmea_min_length = 3\<rparr>"

definition default_config :: config where
  "default_config =
     \<lparr>cfg_host = ''caster.example'', cfg_port = 2101, cfg_mountpoint = ''MOUNT'',
      cfg_ntrip_version = None, cfg_username = None, cfg_password = None,
      cfg_reconnect_attempt_max = 10, cfg_reconnect_attempt_wait_seconds = 5,
      cfg_rtcm_timeout_seconds = 4, cfg_nmea_min_length = 3, cfg_nmea_max_length = 82,
      cfg_use_ssl = False\<rparr>"

text \<open>
  A client as the assignments of \<open>__init__\<close> leave it for the default configuration,
  with a parser state that carries no information.
\<close>

definition fresh_client :: "unit NTRIPClient" where
  "fresh_client =
     \<lparr>host = ''caster.example'', port = 2101, mountpoint = ''MOUNT'',
      ntrip_version = None, basic_credentials = None, rtcm_parser = (),
      nmea_parser = default_parser, ssl = False, shutdown_flag = False,
      connected = False, reconnect_attempt_count = 0, nmea_send_failed_count = 0,
      nmea_send_failed_max = 5, read_zero_bytes_count = 0, read_zero_bytes_max = 5,
      first_rtcm_received = False, recv_rtcm_last_packet_timestamp = 0,
      reconnect_attempt_max = 10, reconnect_attempt_wait_seconds = 5,
      rtcm_timeout_seconds = 4\<rparr>"

text \<open>A handshake in which the transport works and the server answers \<open>text\<close>.\<close>

definition answered :: "string \<Rightarrow> attempt" where
  "answered text =
     \<lparr>socket_connects = True, tls_wraps = True, request_sent = True,
      server_response = Some text\<rparr>"

text \<open>A handshake in which the socket cannot be connected.\<close>

definition refused :: attempt where
  "refused =
     \<lparr>socket_connects = False, tls_wraps = True, request_sent = True,
      server_response = None\<rparr>"

text \<open>
  A world whose \<open>k\<close>-th handshake is given by \<open>f\<close>, in which every send fails and the
  operating system never refuses to sleep.
\<close>

definition world_of :: "(nat \<Rightarrow> attempt) \<Rightarrow> world" where
  "world_of f =
     \<lparr>attempts = f, made = 0, sends = (\<lambda>k. False), sent = 0,
      os_sleeps = (\<lambda>secs. True)\<rparr>"

text \<open>A stand-in for the RTCM parser: one frame per call, holding the data as received.\<close>

definition echo_parse :: "unit \<Rightarrow> bytes \<Rightarrow> bytes list \<times> unit" where
  "echo_parse p data = ([data], p)"

text \<open>A handshake in which the TLS set-up raises.\<close>

definition tls_failure :: attempt where
  "tls_failure =
     \<lparr>socket_connects = True, tls_wraps = False, request_sent = True,
      server_response = None\<rparr>"

text \<open>Two refused handshakes, then a caster that answers \<open>ICY 200 OK\<close>.\<close>

definition third_time_lucky :: "nat \<Rightarrow> attempt" where
  "third_time_lucky k = (if k < 2 then refused else answered (''ICY 200 OK'' @ CRLF))"

text \<open>One TLS failure, then a caster that answers \<open>ICY 200 OK\<close>.\<close>

definition tls_fails_once :: "nat \<Rightarrow> attempt" where
  "tls_fails_once k = (if k = 0 then tls_failure else answered (''ICY 200 OK'' @ CRLF))"

text \<open>A call of \<open>recv_rtcm\<close> during which one short chunk of three bytes arrives.\<close>

definition short_read :: rtcm_io where
  "short_read =
     \<lparr>time_at_entry = 100, readable = True, recvs = [Chunk [0xD3, 0x00, 0x13]],
      probe = BlockingIO, time_at_data = 101\<rparr>"

section \<open>Properties of the sentence validator\<close>

lemma str_in_iff: "str_in sub s \<longleftrightarrow> (\<exists>pre post. s = pre @ sub @ post)"
proof (induction s)
  case Nil
  then show ?case by auto
next
  case (Cons c cs)
  show ?case
  proof
    assume "str_in sub (c # cs)"
    then consider "prefix sub (c # cs)" | "str_in sub cs" by auto
    then show "\<exists>pre post. c # cs = pre @ sub @ post"
    proof cases
      case 1
      then obtain post where "c # cs = sub @ post" by (auto simp: prefix_def)
      then have "c # cs = [] @ sub @ post" by simp
      then show ?thesis by blast
    next
      case 2
      with Cons.IH obtain pre post where "cs = pre @ sub @ post" by blast
      then have "c # cs = (c # pre) @ sub @ post" by simp
      then show ?thesis by blast
    qed
  next
    assume "\<exists>pre post. c # cs = pre @ sub @ post"
    then obtain pre post where e: "c # cs = pre @ sub @ post" by blast
    show "str_in sub (c # cs)"
    proof (cases pre)
      case Nil
      with e have "prefix sub (c # cs)" by (simp add: prefix_def)
      then show ?thesis by simp
    next
      case (Cons d pre')
      with e have "cs = pre' @ sub @ post" by simp
      with Cons.IH have "str_in sub cs" by blast
      then show ?thesis by simp
    qed
  qed
qed

lemma rsplit1_Some_iff:
  "rsplit1 sep s = Some (d, t) \<longleftrightarrow> s = d @ sep # t \<and> sep \<notin> set t"
proof (induction s arbitrary: d t)
  case Nil
  then show ?case by simp
next
  case (Cons c cs)
  show ?case
  proof (cases "rsplit1 sep cs")
    case None
    have no: "sep \<notin> set cs"
    proof
      assume "sep \<in> set cs"
      then obtain a b where "cs = a @ sep # b" "sep \<notin> set b"
        by (meson split_list_last)
      with Cons.IH [of a b] None show False by simp
    qed
    show ?thesis
    proof
      assume "rsplit1 sep (c # cs) = Some (d, t)"
      with None no show "c # cs = d @ sep # t \<and> sep \<notin> set t"
        by (auto split: if_splits)
    next
      assume a: "c # cs = d @ sep # t \<and> sep \<notin> set t"
      with no have "d = []" by (cases d) auto
      with a None show "rsplit1 sep (c # cs) = Some (d, t)" by auto
    qed
  next
    case (Some p)
    obtain d' t' where p: "p = (d', t')" by (cases p)
    with Some Cons.IH [of d' t'] have cs: "cs = d' @ sep # t'" "sep \<notin> set t'" by auto
    show ?thesis
    proof
      assume "rsplit1 sep (c # cs) = Some (d, t)"
      with Some p cs show "c # cs = d @ sep # t \<and> sep \<notin> set t" by auto
    next
      assume a: "c # cs = d @ sep # t \<and> sep \<notin> set t"
      have "d \<noteq> []"
      proof
        assume "d = []"
        with a have "cs = t" by simp
        with a cs show False by auto
      qed
      then obtain d0 where d: "d = c # d0" using a by (cases d) auto
      with a have "cs = d0 @ sep # t" by simp
      with a Cons.IH [of d0 t] have "rsplit1 sep cs = Some (d0, t)" by simp
      with d show "rsplit1 sep (c # cs) = Some (d, t)" by simp
    qed
  qed
qed

lemma spec_split:
  assumes "s = d @ CHR ''*'' # t" "CHR ''*'' \<notin> set t"
  shows "spec_after_last_star s = t" "spec_between s = tl d"
proof -
  have r: "rev s = rev t @ CHR ''*'' # rev d" using assms by simp
  have all: "\<And>x. x \<in> set (rev t) \<Longrightarrow> x \<noteq> CHR ''*''" using assms by auto
  have "takeWhile (\<lambda>c. c \<noteq> CHR ''*'') (rev s) = rev t"
    unfolding r using takeWhile_append2 [of "rev t" "\<lambda>c. c \<noteq> CHR ''*''"] all by simp
  then show "spec_after_last_star s = t"
    by (simp add: spec_after_last_star_def)
  have "dropWhile (\<lambda>c. c \<noteq> CHR ''*'') (rev s) = CHR ''*'' # rev d"
    unfolding r using dropWhile_append2 [of "rev t" "\<lambda>c. c \<noteq> CHR ''*''"] all by simp
  then show "spec_between s = tl d"
    by (simp add: spec_between_def)
qed

lemma fold_xor_foldr:
  "fold (\<lambda>char acc. acc XOR of_char char) cs (a::int) =
   a XOR foldr (\<lambda>c a. of_char c XOR a) cs 0"
  by (induction cs arbitrary: a) (simp_all add: ac_simps)

lemma calculated_checksum_spec: "calculated_checksum cs = spec_xor cs"
  by (simp add: calculated_checksum_def spec_xor_def fold_xor_foldr)

lemma suffix_CRLF_py_last: "suffix CRLF s \<longleftrightarrow> py_last 2 s = CRLF"
proof
  assume "suffix CRLF s"
  then obtain b where "s = b @ CRLF" by (auto simp: suffix_def)
  then show "py_last 2 s = CRLF" by (simp add: py_last_def CRLF_def)
next
  assume "py_last 2 s = CRLF"
  then have "s = take (length s - 2) s @ CRLF"
    unfolding py_last_def by (metis append_take_drop_id)
  then show "suffix CRLF s" unfolding suffix_def by blast
qed

text \<open>
  What the validator does once the structural checks have passed: everything is decided
  by the text after the last \<open>*\<close> and the characters between the sentinel and that \<open>*\<close>.
\<close>

lemma is_valid_sentence_structural:
  assumes "structurally_ok p s"
  shows "is_valid_sentence p s =
         (case py_int16 (spec_after_last_star s) of
            None \<Rightarrow> Inl ValueError
          | Some e \<Rightarrow> if e \<noteq> spec_xor (spec_between s) then Inr False else Inr True)"
proof -
  from assms have len: "\<not> int (length s) > nmea_max_length p"
      "\<not> int (length s) < nmea_min_length p"
    and start: "prefix ''$'' s \<or> prefix ''!'' s" and crlf: "py_last 2 s = CRLF"
    and star: "CHR ''*'' \<in> set s"
    by (auto simp: structurally_ok_def suffix_CRLF_py_last)
  from start obtain c0 r where s: "s = c0 # r" "c0 = CHR ''$'' \<or> c0 = CHR ''!''"
    by (auto simp: prefix_def)
  from star obtain d t where dt: "s = d @ CHR ''*'' # t" "CHR ''*'' \<notin> set t"
    by (meson split_list_last)
  then have rs: "rsplit1 NMEA_CHECKSUM_SEPERATOR s = Some (d, t)"
    by (simp add: rsplit1_Some_iff NMEA_CHECKSUM_SEPERATOR_def)
  have sp: "spec_after_last_star s = t" "spec_between s = tl d"
    using spec_split [OF dt] by simp_all
  have dr: "drop 1 d = tl d" by (simp add: drop_Suc)
  have "is_valid_sentence p (c0 # r) =
        (case py_int16 t of None \<Rightarrow> Inl ValueError
         | Some e \<Rightarrow> if e \<noteq> calculated_checksum (tl d) then Inr False else Inr True)"
    unfolding is_valid_sentence_def
    using len crlf star rs s(2) unfolding s(1) dr [symmetric]
    by (auto simp add: NMEA_CHECKSUM_SEPERATOR_def simp del: rsplit1.simps set_simps)
  then show ?thesis
    by (simp only: s(1) [symmetric] sp calculated_checksum_spec)
qed

text \<open>
  C4. For a sentence within the length bounds that starts with \<open>$\<close> or \<open>!\<close>, ends with
  CR LF and contains \<open>*\<close>, the validator returns true exactly when the text after the
  last \<open>*\<close> parses as a hexadecimal number and that number is the exclusive-or of the
  byte values of the characters strictly between the leading sentinel and the last \<open>*\<close>.
\<close>

theorem is_valid_sentence_checksum:
  assumes "structurally_ok p s"
  shows "is_valid_sentence p s = Inr True \<longleftrightarrow>
         py_int16 (spec_after_last_star s) = Some (spec_xor (spec_between s))"
  unfolding is_valid_sentence_structural [OF assms]
  by (auto split: option.splits)

theorem is_valid_sentence_checksum_witness:
  "structurally_ok default_parser (''$GPGGA,1*4B'' @ CRLF) \<and>
   is_valid_sentence default_parser (''$GPGGA,1*4B'' @ CRLF) = Inr True \<and>
   py_int16 (spec_after_last_star (''$GPGGA,1*4B'' @ CRLF)) =
     Some (spec_xor (spec_between (''$GPGGA,1*4B'' @ CRLF)))"
proof -
  have ok: "structurally_ok default_parser (''$GPGGA,1*4B'' @ CRLF)"
    by code_simp
  have v: "is_valid_sentence default_parser (''$GPGGA,1*4B'' @ CRLF) = Inr True"
    by code_simp
  from ok v is_valid_sentence_checksum [OF ok] show ?thesis by simp
qed

text \<open>
  C5. A sentence that passes the structural checks but whose text after the last \<open>*\<close>
  is not a hexadecimal number does not make the validator return false: the conversion
  raises \<open>ValueError\<close>, which nothing in the validator catches. Here the sentence is
  \<open>$GPGGA*ZZ\<close> followed by CR LF.
\<close>

theorem is_valid_sentence_non_hex_raises:
  "structurally_ok default_parser (''$GPGGA*ZZ'' @ CRLF) \<and>
   py_int16 (spec_after_last_star (''$GPGGA*ZZ'' @ CRLF)) = None \<and>
   is_valid_sentence default_parser (''$GPGGA*ZZ'' @ CRLF) = Inl ValueError"
  by code_simp

text \<open>The same for every such sentence.\<close>

lemma is_valid_sentence_unparsable:
  assumes "structurally_ok p s" "py_int16 (spec_after_last_star s) = None"
  shows "is_valid_sentence p s = Inl ValueError"
  by (simp add: is_valid_sentence_structural [OF assms(1)] assms(2))

section \<open>Properties of the client\<close>

text \<open>
  C1. Constructing a client never succeeds: \<open>__init__\<close> passes \<open>nmea_min_length\<close> and
  \<open>nmea_max_length\<close> to \<open>NMEAParser\<close>, whose constructor declares neither, so the call
  raises \<open>TypeError\<close> for every configuration.
\<close>

theorem NTRIPClient_init_raises:
  "NTRIPClient_init (Inr rp) cfg = Inl TypeError"
  by (simp add: NTRIPClient_init_def NMEAParser_init_def NMEAParser_params_def)

text \<open>A parser built without the length keywords has the module defaults as bounds.\<close>

lemma NMEAParser_init_defaults:
  "NMEAParser_init [(''logerr'', Callable), (''logwarn'', Callable)] =
   Inr \<lparr>nmea_max_length = 82, nmea_min_length = 3\<rparr>"
  by (simp add: NMEAParser_init_def NMEAParser_params_def NMEA_DEFAULT_MAX_LENGTH_def
      NMEA_DEFAULT_MIN_LENGTH_def)

subsection \<open>Frame conditions\<close>

text \<open>\<open>connect\<close> changes nothing but the connection flag.\<close>

lemma connect_frame: "(snd (connect a s))\<lparr>connected := connected s\<rparr> = s"
  by (simp add: connect_def Let_def split: option.splits)

text \<open>
  The value returned by \<open>connect\<close> depends on the client only through the TLS switch,
  the configured protocol version and the connection flag.
\<close>

lemma connect_result_cong:
  assumes "ssl s = ssl s'" "ntrip_version s = ntrip_version s'" "connected s = connected s'"
  shows "fst (connect a s) = fst (connect a s')"
  using assms by (simp add: connect_def Let_def split: option.splits)

lemma connect_raises_only_SSLError:
  "connect a s = (Inl e, s') \<Longrightarrow> e = SSLError"
  by (auto simp: connect_def Let_def split: if_splits option.splits)

lemma connect_in_loop:
  assumes "connect a (disconnect (s\<lparr>reconnect_attempt_count := k\<rparr>)) = (r, s3)"
  shows "s3\<lparr>connected := connected s,
            reconnect_attempt_count := reconnect_attempt_count s\<rparr> = s"
    and "reconnect_attempt_count s3 = k"
proof -
  let ?s1 = "disconnect (s\<lparr>reconnect_attempt_count := k\<rparr>)"
  from connect_frame [where a = a and s = ?s1] assms
  have h: "s3\<lparr>connected := False\<rparr> = s\<lparr>reconnect_attempt_count := k, connected := False\<rparr>"
    by (simp add: disconnect_def)
  from arg_cong [OF h, where f = "\<lambda>x. x\<lparr>connected := connected s,
      reconnect_attempt_count := reconnect_attempt_count s\<rparr>"]
  show "s3\<lparr>connected := connected s,
           reconnect_attempt_count := reconnect_attempt_count s\<rparr> = s"
    by simp
  from arg_cong [OF h, where f = reconnect_attempt_count]
  show "reconnect_attempt_count s3 = k" by simp
qed

text \<open>When \<open>time.sleep\<close> returns.\<close>

lemma time_sleep_returns_iff:
  "time_sleep w secs = None \<longleftrightarrow>
     0 \<le> secs \<and> secs * 10 ^ 9 \<le> 2 ^ 63 - 1 \<and> os_sleeps w secs"
  by (auto simp: time_sleep_def)

text \<open>One pass through the loop body, given what \<open>connect\<close> did.\<close>

lemma reconnect_loop_step:
  assumes "\<not> shutdown_flag s"
    and "connect (attempts w (made w))
           (disconnect (s\<lparr>reconnect_attempt_count := reconnect_attempt_count s + 1\<rparr>)) =
         (r3, s3)"
  shows "reconnect_loop (w, s) =
         (case r3 of
            Inl e \<Rightarrow> (Inl e, w\<lparr>made := Suc (made w)\<rparr>, s3)
          | Inr ok \<Rightarrow>
              if \<not> ok \<and> reconnect_attempt_count s3 < reconnect_attempt_max s3
              then (case time_sleep w (reconnect_attempt_wait_seconds s3) of
                      Some e \<Rightarrow> (Inl e, w\<lparr>made := Suc (made w)\<rparr>, s3)
                    | None \<Rightarrow> reconnect_loop (w\<lparr>made := Suc (made w)\<rparr>, s3))
              else if reconnect_attempt_count s3 \<ge> reconnect_attempt_max s3
              then (Inl ReconnectFailed, w\<lparr>made := Suc (made w)\<rparr>,
                    s3\<lparr>reconnect_attempt_count := 0\<rparr>)
              else if ok
              then (Inr (), w\<lparr>made := Suc (made w)\<rparr>, s3\<lparr>reconnect_attempt_count := 0\<rparr>)
              else reconnect_loop (w\<lparr>made := Suc (made w)\<rparr>, s3))"
  by (subst reconnect_loop.simps) (simp add: assms split: sum.splits)

text \<open>
  The reconnect loop changes nothing of the client but the connection flag and the
  attempt counter, and nothing of the world but the number of handshakes made.
\<close>

lemma reconnect_loop_frame:
  "reconnect_loop (w, s) = (r, w', s') \<Longrightarrow>
     s'\<lparr>connected := connected s, reconnect_attempt_count := reconnect_attempt_count s\<rparr> = s \<and>
     w'\<lparr>made := made w\<rparr> = w"
proof (induction "(w, s)" arbitrary: w s rule: reconnect_loop.induct)
  case (1 w s)
  let ?s1 = "disconnect (s\<lparr>reconnect_attempt_count := reconnect_attempt_count s + 1\<rparr>)"
  let ?a = "attempts w (made w)"
  let ?w1 = "w\<lparr>made := Suc (made w)\<rparr>"
  show ?case
  proof (cases "shutdown_flag s")
    case True
    with "1.prems" show ?thesis by (simp add: reconnect_loop.simps [of w s])
  next
    case False
    obtain r3 s3 where c: "connect ?a ?s1 = (r3, s3)" by (cases "connect ?a ?s1")
    note step = reconnect_loop_step [OF False c]
    note s3 = connect_in_loop(1) [OF c]
    have w1: "?w1\<lparr>made := made w\<rparr> = w" by simp
    have stop: ?thesis if "s' = s3 \<or> s' = s3\<lparr>reconnect_attempt_count := 0\<rparr>" "w' = ?w1"
    proof -
      from that(1) s3
      have "s'\<lparr>connected := connected s,
               reconnect_attempt_count := reconnect_attempt_count s\<rparr> = s"
        by auto
      with that(2) w1 show ?thesis by simp
    qed
    have again: ?thesis
      if run: "reconnect_loop (?w1, s3) = (r, w', s')" and ok: "r3 = Inr ok" "\<not> ok"
        and lt: "reconnect_attempt_count s3 < reconnect_attempt_max s3"
        and sl: "time_sleep w (reconnect_attempt_wait_seconds s3) = None"
      for ok
    proof -
      from ok(2) lt
      have g: "\<not> ok \<and> reconnect_attempt_count s3 < reconnect_attempt_max s3" by simp
      from "1.hyps"(1) [OF False c [symmetric] ok(1) g sl run]
      have ih: "s'\<lparr>connected := connected s3,
                  reconnect_attempt_count := reconnect_attempt_count s3\<rparr> = s3"
        "w'\<lparr>made := made ?w1\<rparr> = ?w1"
        by simp_all
      from arg_cong [OF ih(1), where f = "\<lambda>x. x\<lparr>connected := connected s,
          reconnect_attempt_count := reconnect_attempt_count s\<rparr>"] s3
      have "s'\<lparr>connected := connected s,
               reconnect_attempt_count := reconnect_attempt_count s\<rparr> = s"
        by simp
      moreover from arg_cong [OF ih(2), where f = "\<lambda>x. x\<lparr>made := made w\<rparr>"]
      have "w'\<lparr>made := made w\<rparr> = w" by simp
      ultimately show ?thesis by simp
    qed
    show ?thesis
    proof (cases r3)
      case (Inl e)
      with "1.prems" step have e: "s' = s3" "w' = ?w1" by simp_all
      show ?thesis by (rule stop) (simp_all add: e)
    next
      case (Inr ok)
      show ?thesis
      proof (cases "\<not> ok \<and> reconnect_attempt_count s3 < reconnect_attempt_max s3")
        case True
        show ?thesis
        proof (cases "time_sleep w (reconnect_attempt_wait_seconds s3)")
          case None
          with step Inr True "1.prems" have "reconnect_loop (?w1, s3) = (r, w', s')" by simp
          from again [OF this Inr _ _ None] True show ?thesis by simp
        next
          case (Some e)
          with step Inr True "1.prems" have e: "s' = s3" "w' = ?w1" by simp_all
          show ?thesis by (rule stop) (simp_all add: e)
        qed
      next
        case False
        with step Inr "1.prems"
        have e: "s' = s3\<lparr>reconnect_attempt_count := 0\<rparr>" "w' = ?w1"
          by (simp_all split: if_splits)
        show ?thesis by (rule stop) (simp_all add: e)
      qed
    qed
  qed
qed

lemma reconnect_frame:
  assumes "reconnect (w, s) = (r, w', s')"
  shows "s'\<lparr>connected := connected s,
            reconnect_attempt_count := reconnect_attempt_count s\<rparr> = s"
    and "w'\<lparr>made := made w\<rparr> = w"
  using assms reconnect_loop_frame [of w s r w' s']
  by (auto simp: reconnect_def split: if_splits)

subsection \<open>connect\<close>

text \<open>
  C2. A failed \<open>connect\<close> can leave the client marked connected. The caster answers
  with a success marker and a sourcetable marker; \<open>connect\<close> sets the flag on seeing
  the success marker, then returns \<open>False\<close> because of the sourcetable marker, and the
  flag stays set. The client was not connected before the call.
\<close>

theorem connect_failure_leaves_connected:
  "any_in SUCCESS_RESPONSES (''ICY 200 OK'' @ CRLF @ ''SOURCETABLE 200 OK'' @ CRLF) \<and>
   any_in SOURCETABLE_RESPONSES (''ICY 200 OK'' @ CRLF @ ''SOURCETABLE 200 OK'' @ CRLF) \<and>
   \<not> connected fresh_client \<and>
   connect (answered (''ICY 200 OK'' @ CRLF @ ''SOURCETABLE 200 OK'' @ CRLF)) fresh_client =
     (Inr False, fresh_client\<lparr>connected := True\<rparr>)"
  by code_simp

text \<open>
  A response with a success marker and no error marker, received by a client without a
  configured protocol version: \<open>connect\<close> returns \<open>True\<close>, not \<open>False\<close>.
\<close>

theorem connect_success_without_version:
  "any_in SUCCESS_RESPONSES (''ICY 200 OK'' @ CRLF) \<and>
   \<not> any_in SOURCETABLE_RESPONSES (''ICY 200 OK'' @ CRLF) \<and>
   \<not> any_in UNAUTHORIZED_RESPONSES (''ICY 200 OK'' @ CRLF) \<and>
   ntrip_version fresh_client = None \<and>
   fst (connect (answered (''ICY 200 OK'' @ CRLF)) fresh_client) = Inr True"
  by code_simp

text \<open>
  C3, as the code has it. When the transport works and the response contains a success
  marker and neither a sourcetable nor an unauthorized marker, \<open>connect\<close> returns
  \<open>True\<close> and marks the client connected, whether or not a protocol version is
  configured. The rule about a missing version applies only when the response has no
  success marker.
\<close>

theorem connect_success_marker:
  assumes "socket_connects a" "ssl s \<longrightarrow> tls_wraps a" "request_sent a"
    and "server_response a = Some response"
    and "any_in SUCCESS_RESPONSES response"
    and "\<not> any_in SOURCETABLE_RESPONSES response"
    and "\<not> any_in UNAUTHORIZED_RESPONSES response"
  shows "connect a s = (Inr True, s\<lparr>connected := True\<rparr>)"
  using assms by (auto simp: connect_def Let_def)

theorem connect_success_marker_witness:
  "socket_connects (answered (''ICY 200 OK'' @ CRLF)) \<and>
   tls_wraps (answered (''ICY 200 OK'' @ CRLF)) \<and>
   request_sent (answered (''ICY 200 OK'' @ CRLF)) \<and>
   server_response (answered (''ICY 200 OK'' @ CRLF)) = Some (''ICY 200 OK'' @ CRLF) \<and>
   any_in SUCCESS_RESPONSES (''ICY 200 OK'' @ CRLF) \<and>
   \<not> any_in SOURCETABLE_RESPONSES (''ICY 200 OK'' @ CRLF) \<and>
   \<not> any_in UNAUTHORIZED_RESPONSES (''ICY 200 OK'' @ CRLF) \<and>
   connect (answered (''ICY 200 OK'' @ CRLF)) (fresh_client\<lparr>ntrip_version := Some ''2.0''\<rparr>) =
     (Inr True, fresh_client\<lparr>ntrip_version := Some ''2.0'', connected := True\<rparr>)"
proof -
  let ?a = "answered (''ICY 200 OK'' @ CRLF)"
  let ?s = "fresh_client\<lparr>ntrip_version := Some ''2.0''\<rparr>"
  have h: "socket_connects ?a" "tls_wraps ?a" "request_sent ?a"
    "server_response ?a = Some (''ICY 200 OK'' @ CRLF)"
    by (simp_all add: answered_def)
  have tls: "ssl ?s \<longrightarrow> tls_wraps ?a" using h(2) by simp
  have m: "any_in SUCCESS_RESPONSES (''ICY 200 OK'' @ CRLF)"
    "\<not> any_in SOURCETABLE_RESPONSES (''ICY 200 OK'' @ CRLF)"
    "\<not> any_in UNAUTHORIZED_RESPONSES (''ICY 200 OK'' @ CRLF)"
    by code_simp+
  from connect_success_marker [OF h(1) tls h(3,4) m] h m show ?thesis by simp
qed

text \<open>Without a success marker and without a version, the same client is refused.\<close>

lemma connect_unknown_response_without_version:
  "connect (answered ''HTTP/1.1 404 Not Found'') fresh_client = (Inr False, fresh_client)"
  by code_simp

subsection \<open>reconnect\<close>

text \<open>
  C6. A successful handshake at the last permitted attempt is reported as exhaustion.
  With a maximum of three attempts, two refused handshakes and a third one that
  \<open>connect\<close> accepts, \<open>reconnect\<close> raises after the third attempt: the test of the
  counter against the maximum comes before the test for success. The client is left
  connected and the counter is zero.
\<close>

theorem reconnect_success_on_last_attempt_raises:
  "fst (connect (third_time_lucky 2) (disconnect fresh_client)) = Inr True \<and>
   (case reconnect (world_of third_time_lucky,
                    fresh_client\<lparr>connected := True, reconnect_attempt_max := 3\<rparr>) of
      (r, w', s') \<Rightarrow> (r, made w', s')) =
     (Inl ReconnectFailed, 3, fresh_client\<lparr>connected := True, reconnect_attempt_max := 3\<rparr>)"
  by code_simp

text \<open>A success before the last permitted attempt ends \<open>reconnect\<close> normally.\<close>

lemma reconnect_succeeds_early:
  assumes "connected s" "\<not> shutdown_flag s"
    and "connect (attempts w (made w))
           (disconnect (s\<lparr>reconnect_attempt_count := reconnect_attempt_count s + 1\<rparr>)) =
         (Inr True, s3)"
    and "reconnect_attempt_count s + 1 < reconnect_attempt_max s"
  shows "reconnect (w, s) =
         (Inr (), w\<lparr>made := Suc (made w)\<rparr>, s3\<lparr>reconnect_attempt_count := 0\<rparr>)"
proof -
  note fr = connect_in_loop [OF assms(3)]
  from arg_cong [OF fr(1), where f = reconnect_attempt_max]
  have "reconnect_attempt_max s3 = reconnect_attempt_max s" by simp
  with fr(2) assms(4) have "\<not> reconnect_attempt_count s3 \<ge> reconnect_attempt_max s3" by simp
  with assms(1) reconnect_loop_step [OF assms(2,3)] show ?thesis by (simp add: reconnect_def)
qed

text \<open>
  When every handshake fails and the sleep between attempts returns, the loop stops by
  raising, after making one attempt or as many attempts as the counter is below the
  maximum, whichever is more.
\<close>

lemma reconnect_loop_all_fail:
  assumes "\<not> shutdown_flag s"
    and "\<forall>k\<ge>made w. fst (connect (attempts w k) (disconnect s)) = Inr False"
    and "time_sleep w (reconnect_attempt_wait_seconds s) = None"
  shows "\<exists>w' s'. reconnect_loop (w, s) = (Inl ReconnectFailed, w', s') \<and>
           made w' =
             made w + max 1 (nat (reconnect_attempt_max s - reconnect_attempt_count s)) \<and>
           reconnect_attempt_count s' = 0"
  using assms
proof (induction "nat (reconnect_attempt_max s - reconnect_attempt_count s - 1)"
    arbitrary: w s)
  case 0
  let ?s1 = "disconnect (s\<lparr>reconnect_attempt_count := reconnect_attempt_count s + 1\<rparr>)"
  let ?a = "attempts w (made w)"
  obtain r3 s3 where c: "connect ?a ?s1 = (r3, s3)" by (cases "connect ?a ?s1")
  have "fst (connect ?a ?s1) = fst (connect ?a (disconnect s))"
    by (rule connect_result_cong) (simp_all add: disconnect_def)
  with "0.prems"(2) c have r3: "r3 = Inr False" by simp
  note fr = connect_in_loop [OF c]
  from arg_cong [OF fr(1), where f = reconnect_attempt_max]
  have m: "reconnect_attempt_max s3 = reconnect_attempt_max s" by simp
  from "0.hyps" fr(2) m
  have ge: "reconnect_attempt_count s3 \<ge> reconnect_attempt_max s3" by simp
  have "reconnect_loop (w, s) =
          (Inl ReconnectFailed, w\<lparr>made := Suc (made w)\<rparr>, s3\<lparr>reconnect_attempt_count := 0\<rparr>)"
    using reconnect_loop_step [OF "0.prems"(1) c] r3 ge by simp
  moreover from "0.hyps"
  have "max 1 (nat (reconnect_attempt_max s - reconnect_attempt_count s)) = 1" by simp
  ultimately show ?case by simp
next
  case (Suc n)
  let ?s1 = "disconnect (s\<lparr>reconnect_attempt_count := reconnect_attempt_count s + 1\<rparr>)"
  let ?a = "attempts w (made w)"
  let ?w1 = "w\<lparr>made := Suc (made w)\<rparr>"
  obtain r3 s3 where c: "connect ?a ?s1 = (r3, s3)" by (cases "connect ?a ?s1")
  have "fst (connect ?a ?s1) = fst (connect ?a (disconnect s))"
    by (rule connect_result_cong) (simp_all add: disconnect_def)
  with Suc.prems(2) c have r3: "r3 = Inr False" by simp
  note fr = connect_in_loop [OF c]
  from arg_cong [OF fr(1), where f = reconnect_attempt_max]
  have m: "reconnect_attempt_max s3 = reconnect_attempt_max s" by simp
  from arg_cong [OF fr(1), where f = shutdown_flag]
  have sh: "shutdown_flag s3 = shutdown_flag s" by simp
  from arg_cong [OF fr(1), where f = ssl]
  have sl: "ssl s3 = ssl s" by simp
  from arg_cong [OF fr(1), where f = ntrip_version]
  have nv: "ntrip_version s3 = ntrip_version s" by simp
  from arg_cong [OF fr(1), where f = reconnect_attempt_wait_seconds]
  have ws: "reconnect_attempt_wait_seconds s3 = reconnect_attempt_wait_seconds s" by simp
  have sl1: "time_sleep ?w1 = time_sleep w" by (simp add: time_sleep_def fun_eq_iff)
  from Suc.hyps(2) fr(2) m
  have lt: "reconnect_attempt_count s3 < reconnect_attempt_max s3" by simp
  have step: "reconnect_loop (w, s) = reconnect_loop (?w1, s3)"
    using reconnect_loop_step [OF Suc.prems(1) c] Suc.prems(3) r3 lt ws by simp
  have n: "n = nat (reconnect_attempt_max s3 - reconnect_attempt_count s3 - 1)"
    using Suc.hyps(2) fr(2) m by simp
  have fails: "\<forall>k\<ge>made ?w1. fst (connect (attempts ?w1 k) (disconnect s3)) = Inr False"
  proof (intro allI impI)
    fix k assume "made ?w1 \<le> k"
    then have "made w \<le> k" by simp
    with Suc.prems(2) have "fst (connect (attempts w k) (disconnect s)) = Inr False" by simp
    moreover have "fst (connect (attempts w k) (disconnect s3)) =
                   fst (connect (attempts w k) (disconnect s))"
      by (rule connect_result_cong) (simp_all add: disconnect_def sl nv)
    ultimately show "fst (connect (attempts ?w1 k) (disconnect s3)) = Inr False" by simp
  qed
  from Suc.hyps(1) [OF n _ fails] Suc.prems(1,3) sh ws sl1
  obtain w' s' where res: "reconnect_loop (?w1, s3) = (Inl ReconnectFailed, w', s')"
    "made w' = made ?w1 + max 1 (nat (reconnect_attempt_max s3 - reconnect_attempt_count s3))"
    "reconnect_attempt_count s' = 0"
    by auto
  from Suc.hyps(2) fr(2) m
  have "made ?w1 + max 1 (nat (reconnect_attempt_max s3 - reconnect_attempt_count s3)) =
        made w + max 1 (nat (reconnect_attempt_max s - reconnect_attempt_count s))"
    by simp
  with res step show ?case by simp
qed

text \<open>
  With a negative wait the sleep after the first failed attempt raises: \<open>reconnect\<close>
  ends with \<open>ValueError\<close> after one attempt and the counter stays at one.
\<close>

lemma reconnect_negative_wait:
  "(case reconnect (world_of (\<lambda>k. refused),
                    fresh_client\<lparr>connected := True, reconnect_attempt_max := 2,
                                 reconnect_attempt_wait_seconds := - 1\<rparr>) of
      (r, w', s') \<Rightarrow> (r, made w', reconnect_attempt_count s')) = (Inl ValueError, 1, 1)"
  by code_simp

text \<open>
  With a maximum of zero, a connected client whose handshake is refused makes one
  attempt before \<open>reconnect\<close> raises, not zero attempts.
\<close>

theorem reconnect_zero_max_one_attempt:
  "connected (fresh_client\<lparr>connected := True, reconnect_attempt_max := 0\<rparr>) \<and>
   \<not> shutdown_flag (fresh_client\<lparr>connected := True, reconnect_attempt_max := 0\<rparr>) \<and>
   reconnect_attempt_max (fresh_client\<lparr>connected := True, reconnect_attempt_max := 0\<rparr>) = 0 \<and>
   fst (connect refused
          (disconnect (fresh_client\<lparr>connected := True, reconnect_attempt_max := 0\<rparr>))) =
     Inr False \<and>
   (case reconnect (world_of (\<lambda>k. refused),
                    fresh_client\<lparr>connected := True, reconnect_attempt_max := 0\<rparr>) of
      (r, w', s') \<Rightarrow> (r, made w', reconnect_attempt_count s')) = (Inl ReconnectFailed, 1, 0)"
  by code_simp

text \<open>
  C7, as the code has it. When \<open>reconnect\<close> starts on a connected client that is not
  shut down, every handshake from then on makes \<open>connect\<close> return \<open>False\<close>, and
  \<open>time.sleep\<close> returns for the configured wait (the wait is not negative, fits the
  clock, and the operating system accepts it), it raises the exhaustion exception after
  exactly \<open>max 1 (reconnect_attempt_max - c)\<close> attempts, where \<open>c\<close> is the attempt
  counter at the start, and the counter is zero afterwards. That is
  \<open>reconnect_attempt_max\<close> attempts when the counter starts at zero and the maximum is
  at least one.
\<close>

theorem reconnect_exhausted:
  assumes "connected s" "\<not> shutdown_flag s"
    and "\<forall>k\<ge>made w. fst (connect (attempts w k) (disconnect s)) = Inr False"
    and "time_sleep w (reconnect_attempt_wait_seconds s) = None"
  shows "\<exists>w' s'. reconnect (w, s) = (Inl ReconnectFailed, w', s') \<and>
           made w' =
             made w + max 1 (nat (reconnect_attempt_max s - reconnect_attempt_count s)) \<and>
           reconnect_attempt_count s' = 0"
  using reconnect_loop_all_fail [OF assms(2,3,4)] assms(1) by (simp add: reconnect_def)

theorem reconnect_exhausted_witness:
  "connected (fresh_client\<lparr>connected := True\<rparr>) \<and>
   \<not> shutdown_flag (fresh_client\<lparr>connected := True\<rparr>) \<and>
   reconnect_attempt_max (fresh_client\<lparr>connected := True\<rparr>) = 10 \<and>
   fst (connect refused (disconnect (fresh_client\<lparr>connected := True\<rparr>))) = Inr False \<and>
   time_sleep (world_of (\<lambda>k. refused))
     (reconnect_attempt_wait_seconds (fresh_client\<lparr>connected := True\<rparr>)) = None \<and>
   (\<exists>w' s'. reconnect (world_of (\<lambda>k. refused), fresh_client\<lparr>connected := True\<rparr>) =
              (Inl ReconnectFailed, w', s') \<and>
            made w' = 10 \<and> reconnect_attempt_count s' = 0)"
proof -
  let ?s = "fresh_client\<lparr>connected := True\<rparr>"
  let ?w = "world_of (\<lambda>k. refused)"
  have a: "connected ?s" "\<not> shutdown_flag ?s" "reconnect_attempt_max ?s = 10"
    by (simp_all add: fresh_client_def)
  have r: "fst (connect refused (disconnect ?s)) = Inr False"
    by (simp add: connect_def refused_def)
  then have b: "\<forall>k\<ge>made ?w. fst (connect (attempts ?w k) (disconnect ?s)) = Inr False"
    by (simp add: world_of_def)
  have c: "made ?w + max 1 (nat (reconnect_attempt_max ?s - reconnect_attempt_count ?s)) = 10"
    by (simp add: world_of_def fresh_client_def)
  have d: "time_sleep ?w (reconnect_attempt_wait_seconds ?s) = None"
    by (simp add: time_sleep_def world_of_def fresh_client_def)
  from reconnect_exhausted [OF a(1,2) b d] a r d show ?thesis unfolding c by blast
qed

text \<open>
  Whenever the loop ends by success or by exhaustion, the counter is zero; an exception
  escaping from \<open>connect\<close> or from the sleep leaves it as it is.
\<close>

lemma reconnect_loop_count_zero:
  "reconnect_loop (w, s) = (r, w', s') \<Longrightarrow> \<not> shutdown_flag s \<Longrightarrow>
     r = Inr () \<or> r = Inl ReconnectFailed \<Longrightarrow> reconnect_attempt_count s' = 0"
proof (induction "(w, s)" arbitrary: w s rule: reconnect_loop.induct)
  case (1 w s)
  let ?s1 = "disconnect (s\<lparr>reconnect_attempt_count := reconnect_attempt_count s + 1\<rparr>)"
  let ?a = "attempts w (made w)"
  let ?w1 = "w\<lparr>made := Suc (made w)\<rparr>"
  obtain r3 s3 where c: "connect ?a ?s1 = (r3, s3)" by (cases "connect ?a ?s1")
  note step = reconnect_loop_step [OF "1.prems"(2) c]
  note fr = connect_in_loop [OF c]
  from arg_cong [OF fr(1), where f = shutdown_flag]
  have sh: "shutdown_flag s3 = shutdown_flag s" by simp
  show ?case
  proof (cases r3)
    case (Inl e)
    with c have "e = SSLError" by (simp add: connect_raises_only_SSLError)
    with "1.prems"(1) step Inl have "r = Inl SSLError" by simp
    with "1.prems"(3) show ?thesis by simp
  next
    case (Inr ok)
    show ?thesis
    proof (cases "\<not> ok \<and> reconnect_attempt_count s3 < reconnect_attempt_max s3")
      case True
      show ?thesis
      proof (cases "time_sleep w (reconnect_attempt_wait_seconds s3)")
        case None
        with step Inr True "1.prems"(1)
        have run: "reconnect_loop (?w1, s3) = (r, w', s')" by simp
        from "1.prems"(2) sh have "\<not> shutdown_flag s3" by simp
        from "1.hyps"(1) [OF "1.prems"(2) c [symmetric] Inr True None run this "1.prems"(3)]
        show ?thesis .
      next
        case (Some e)
        with step Inr True "1.prems"(1) have "r = Inl e" by simp
        moreover from Some have "e \<noteq> ReconnectFailed"
          by (auto simp: time_sleep_def split: if_splits)
        ultimately show ?thesis using "1.prems"(3) by simp
      qed
    next
      case False
      with step Inr "1.prems"(1)
      have "s' = s3\<lparr>reconnect_attempt_count := 0\<rparr>" by (simp split: if_splits)
      then show ?thesis by simp
    qed
  qed
qed

text \<open>
  A run in which the counter is not zero after a successful \<open>connect\<close> and after
  \<open>shutdown\<close>: a connected client with TLS enabled reconnects, the TLS set-up of the
  first attempt raises, and the exception leaves \<open>reconnect\<close> with the counter at one.
  A following \<open>connect\<close> succeeds and a following \<open>shutdown\<close> disconnects, and in both
  cases the counter is still one.
\<close>

theorem counter_survives_connect_and_shutdown:
  "(case reconnect (world_of tls_fails_once, fresh_client\<lparr>ssl := True, connected := True\<rparr>) of
      (r, w1, s1) \<Rightarrow>
        (r, reconnect_attempt_count s1,
         fst (connect (attempts w1 (made w1)) s1),
         reconnect_attempt_count (snd (connect (attempts w1 (made w1)) s1)),
         reconnect_attempt_count (shutdown s1))) =
   (Inl SSLError, 1, Inr True, 1, 1)"
  by code_simp

text \<open>
  C9, as the code has it. Neither \<open>connect\<close> nor \<open>shutdown\<close> touches the attempt
  counter: after either call it has the value it had before, so it is zero afterwards
  exactly when it was zero before. The reset to zero is done by \<open>reconnect\<close>: when
  \<open>reconnect\<close> runs on a connected client that is not shut down and ends by a
  successful attempt or by exhaustion, the counter is zero afterwards.
\<close>

theorem reconnect_attempt_count_reset:
  "reconnect_attempt_count (snd (connect a s)) = reconnect_attempt_count s \<and>
   reconnect_attempt_count (shutdown s) = reconnect_attempt_count s \<and>
   (connected s \<and> \<not> shutdown_flag s \<and>
    (fst (reconnect (w, s)) = Inr () \<or> fst (reconnect (w, s)) = Inl ReconnectFailed) \<longrightarrow>
      reconnect_attempt_count (snd (snd (reconnect (w, s)))) = 0)"
proof (intro conjI impI)
  from arg_cong [OF connect_frame [where a = a and s = s], where f = reconnect_attempt_count]
  show "reconnect_attempt_count (snd (connect a s)) = reconnect_attempt_count s" by simp
  show "reconnect_attempt_count (shutdown s) = reconnect_attempt_count s"
    by (simp add: shutdown_def disconnect_def)
  assume h: "connected s \<and> \<not> shutdown_flag s \<and>
    (fst (reconnect (w, s)) = Inr () \<or> fst (reconnect (w, s)) = Inl ReconnectFailed)"
  obtain r w' s' where r: "reconnect (w, s) = (r, w', s')" by (cases "reconnect (w, s)")
  with h have "reconnect_loop (w, s) = (r, w', s')" by (simp add: reconnect_def)
  from reconnect_loop_count_zero [OF this] h r
  show "reconnect_attempt_count (snd (snd (reconnect (w, s)))) = 0" by simp
qed

theorem reconnect_attempt_count_reset_witness:
  "connected (fresh_client\<lparr>connected := True\<rparr>) \<and>
   \<not> shutdown_flag (fresh_client\<lparr>connected := True\<rparr>) \<and>
   fst (reconnect (world_of third_time_lucky, fresh_client\<lparr>connected := True\<rparr>)) = Inr () \<and>
   reconnect_attempt_count
     (snd (snd (reconnect (world_of third_time_lucky, fresh_client\<lparr>connected := True\<rparr>)))) = 0 \<and>
   reconnect_attempt_count
     (snd (connect (third_time_lucky 2) (fresh_client\<lparr>connected := True\<rparr>))) = 0 \<and>
   reconnect_attempt_count (shutdown (fresh_client\<lparr>connected := True\<rparr>)) = 0"
proof -
  let ?s = "fresh_client\<lparr>connected := True\<rparr>"
  have a: "connected ?s" "\<not> shutdown_flag ?s"
    "fst (reconnect (world_of third_time_lucky, ?s)) = Inr ()"
    by code_simp+
  have z: "reconnect_attempt_count ?s = 0" by (simp add: fresh_client_def)
  from reconnect_attempt_count_reset [of "third_time_lucky 2" ?s "world_of third_time_lucky"]
    a z
  show ?thesis by simp
qed

subsection \<open>send\_nmea\<close>

text \<open>
  After the counter has been reset, a call needs no further activation: a failing send
  raises the counter to one, which is below any maximum greater than one.
\<close>

lemma send_nmea_after_reset:
  assumes "1 < nmea_send_failed_max s" "nmea_send_failed_count s = 0"
  shows "\<exists>r w' s'. send_nmea (Suc 0) sentence (w, s) = Some (r, w', s') \<and>
           sent w' \<le> Suc (sent w)"
  using assms by (auto simp: Let_def split: sum.splits bool.splits)

text \<open>
  C10. A call of \<open>send_nmea\<close> never nests more than two activations, whatever the
  transport does and whatever the failure counter was: two activations are enough for
  the call to finish, and it sends at most twice. The failure maximum set by \<open>__init__\<close> is five;
  any maximum above one gives the same bound.
\<close>

theorem send_nmea_depth:
  assumes "1 < nmea_send_failed_max s"
  shows "\<exists>r w' s'. send_nmea 2 sentence (w, s) = Some (r, w', s') \<and> sent w' \<le> sent w + 2"
proof -
  let ?sentence = "fix_ending sentence"
  let ?w1 = "w\<lparr>sent := Suc (sent w)\<rparr>"
  let ?s1 = "s\<lparr>nmea_send_failed_count := nmea_send_failed_count s + 1\<rparr>"
  have two: "send_nmea 2 sentence (w, s) = send_nmea (Suc (Suc 0)) sentence (w, s)"
    by (simp add: numeral_2_eq_2)
  consider (early) "\<not> connected s \<or> is_valid_sentence (nmea_parser s) ?sentence \<noteq> Inr True"
    | (sent_ok) "connected s" "is_valid_sentence (nmea_parser s) ?sentence = Inr True"
        "sends w (sent w)"
    | (below) "connected s" "is_valid_sentence (nmea_parser s) ?sentence = Inr True"
        "\<not> sends w (sent w)" "\<not> nmea_send_failed_count ?s1 \<ge> nmea_send_failed_max ?s1"
    | (restart) "connected s" "is_valid_sentence (nmea_parser s) ?sentence = Inr True"
        "\<not> sends w (sent w)" "nmea_send_failed_count ?s1 \<ge> nmea_send_failed_max ?s1"
    by blast
  then show ?thesis
  proof cases
    case early
    then have "\<exists>r. send_nmea (Suc (Suc 0)) sentence (w, s) = Some (r, w, s)"
      by (auto simp: Let_def split: sum.splits bool.splits)
    with two show ?thesis by auto
  next
    case sent_ok
    then have "send_nmea (Suc (Suc 0)) sentence (w, s) = Some (Inr (), ?w1, s)"
      by (simp add: Let_def)
    with two show ?thesis by simp
  next
    case below
    then have "send_nmea (Suc (Suc 0)) sentence (w, s) = Some (Inr (), ?w1, ?s1)"
      by (simp add: Let_def)
    with two show ?thesis by simp
  next
    case restart
    obtain r2 w2 s2 where rc: "reconnect (?w1, ?s1) = (r2, w2, s2)"
      by (cases "reconnect (?w1, ?s1)")
    note fr = reconnect_frame [OF rc]
    from arg_cong [OF fr(1), where f = nmea_send_failed_max]
    have mx: "nmea_send_failed_max s2 = nmea_send_failed_max s" by simp
    from arg_cong [OF fr(2), where f = sent]
    have st: "sent w2 = Suc (sent w)" by simp
    show ?thesis
    proof (cases r2)
      case (Inl e)
      with restart rc have "send_nmea (Suc (Suc 0)) sentence (w, s) = Some (Inl e, w2, s2)"
        by (simp add: Let_def)
      with two st show ?thesis by simp
    next
      case (Inr u)
      with restart rc
      have "send_nmea (Suc (Suc 0)) sentence (w, s) =
            send_nmea (Suc 0) ?sentence (w2, s2\<lparr>nmea_send_failed_count := 0\<rparr>)"
        by (simp add: Let_def)
      moreover
      have "\<exists>r w' s'. send_nmea (Suc 0) ?sentence (w2, s2\<lparr>nmea_send_failed_count := 0\<rparr>) =
                Some (r, w', s') \<and> sent w' \<le> Suc (sent w2)"
        by (rule send_nmea_after_reset) (simp_all add: mx assms)
      ultimately show ?thesis using two st by auto
    qed
  qed
qed

text \<open>
  A call that does use both activations: the counter stands at four, every send fails,
  and the caster accepts the reconnect. One activation is not enough for this call.
\<close>

theorem send_nmea_depth_witness:
  "1 < nmea_send_failed_max (fresh_client\<lparr>connected := True, nmea_send_failed_count := 4\<rparr>) \<and>
   (\<exists>r w' s'. send_nmea 2 ''$GPGGA,1*4B''
                 (world_of (\<lambda>k. answered (''ICY 200 OK'' @ CRLF)),
                  fresh_client\<lparr>connected := True, nmea_send_failed_count := 4\<rparr>) =
                 Some (r, w', s') \<and>
               sent w' \<le> sent (world_of (\<lambda>k. answered (''ICY 200 OK'' @ CRLF))) + 2) \<and>
   send_nmea 1 ''$GPGGA,1*4B''
     (world_of (\<lambda>k. answered (''ICY 200 OK'' @ CRLF)),
      fresh_client\<lparr>connected := True, nmea_send_failed_count := 4\<rparr>) = None"
proof -
  let ?s = "fresh_client\<lparr>connected := True, nmea_send_failed_count := 4\<rparr>"
  let ?w = "world_of (\<lambda>k. answered (''ICY 200 OK'' @ CRLF))"
  have a: "1 < nmea_send_failed_max ?s" by (simp add: fresh_client_def)
  have b: "send_nmea 1 ''$GPGGA,1*4B'' (?w, ?s) = None" by code_simp
  from send_nmea_depth [OF a, of "''$GPGGA,1*4B''" ?w] a b show ?thesis by blast
qed

subsection \<open>recv\_rtcm\<close>

text \<open>
  A call in which three bytes arrive while the empty-read counter stands at two: the
  frames are returned, the timestamp and the flag are set, and the counter is still two.
\<close>

theorem recv_rtcm_keeps_zero_count:
  "map_option (\<lambda>(r, w', s'). (r, read_zero_bytes_count s',
                 recv_rtcm_last_packet_timestamp s', first_rtcm_received s'))
     (recv_rtcm echo_parse short_read
        (world_of (\<lambda>k. refused),
         fresh_client\<lparr>connected := True, read_zero_bytes_count := 2\<rparr>)) =
   Some (Inr [[0xD3, 0x00, 0x13]], 2, 101, True)"
  by code_simp

lemma stale_check_frame:
  assumes "stale_check io (w, s) = (r, w1, s1)"
  shows "read_zero_bytes_count s1 = read_zero_bytes_count s"
proof (cases "time_at_entry io - rtcm_timeout_seconds s \<ge> recv_rtcm_last_packet_timestamp s
           \<and> first_rtcm_received s")
  case True
  obtain r2 w2 s2 where rc: "reconnect (w, s) = (r2, w2, s2)" by (cases "reconnect (w, s)")
  from arg_cong [OF reconnect_frame(1) [OF rc], where f = read_zero_bytes_count]
  have "read_zero_bytes_count s2 = read_zero_bytes_count s" by simp
  with assms True rc show ?thesis
    by (cases r2) (auto simp: stale_check_def)
next
  case False
  with assms show ?thesis by (auto simp: stale_check_def)
qed

text \<open>
  C8, as the code has it. In a call of \<open>recv_rtcm\<close> on a connected client in which the
  staleness check passes without an exception (leaving world \<open>w1\<close> and client \<open>s1\<close>),
  the socket is readable and the read loop yields a non-empty byte sequence (ending with
  a short chunk, or with a read error on a socket that is still open): the timestamp
  becomes the current time, the received flag is set, the bytes go to the RTCM parser
  and its frames are returned. The empty-read counter is left as it was; it is not
  reset.
\<close>

theorem recv_rtcm_data:
  assumes "connected s"
    and "stale_check io (w, s) = (Inr (), w1, s1)"
    and "readable io"
    and "read_loop (recvs io) [] = Some (data, failed)"
    and "failed \<longrightarrow> socket_is_open (probe io)"
    and "data \<noteq> []"
    and "parse (rtcm_parser s1) data = (frames, p)"
  shows "recv_rtcm parse io (w, s) =
           Some (Inr frames, w1,
                 s1\<lparr>recv_rtcm_last_packet_timestamp := time_at_data io,
                     first_rtcm_received := True, rtcm_parser := p\<rparr>) \<and>
         read_zero_bytes_count s1 = read_zero_bytes_count s"
  using assms stale_check_frame [OF assms(2)]
  by (auto simp: recv_rtcm_def note_and_parse_def Let_def)

theorem recv_rtcm_data_witness:
  "connected (fresh_client\<lparr>connected := True, read_zero_bytes_count := 2\<rparr>) \<and>
   readable short_read \<and>
   read_loop (recvs short_read) [] = Some ([0xD3, 0x00, 0x13], False) \<and>
   recv_rtcm echo_parse short_read
     (world_of (\<lambda>k. refused), fresh_client\<lparr>connected := True, read_zero_bytes_count := 2\<rparr>) =
     Some (Inr [[0xD3, 0x00, 0x13]], world_of (\<lambda>k. refused),
           fresh_client\<lparr>connected := True, read_zero_bytes_count := 2,
                        recv_rtcm_last_packet_timestamp := 101,
                        first_rtcm_received := True\<rparr>)"
proof -
  let ?s = "fresh_client\<lparr>connected := True, read_zero_bytes_count := 2\<rparr>"
  let ?w = "world_of (\<lambda>k. refused)"
  have a: "connected ?s" by (simp add: fresh_client_def)
  have b: "stale_check short_read (?w, ?s) = (Inr (), ?w, ?s)"
    by (simp add: stale_check_def fresh_client_def)
  have c: "readable short_read" by (simp add: short_read_def)
  have d: "read_loop (recvs short_read) [] = Some ([0xD3, 0x00, 0x13], False)"
    by (simp add: short_read_def CHUNK_SIZE_def)
  have e: "False \<longrightarrow> socket_is_open (probe short_read)" by simp
  have f: "[0xD3, 0x00, 0x13] \<noteq> ([] :: bytes)" by simp
  have g: "echo_parse (rtcm_parser ?s) [0xD3, 0x00, 0x13] = ([[0xD3, 0x00, 0x13]], ())"
    by (simp add: echo_parse_def)
  have t: "time_at_data short_read = 101" by (simp add: short_read_def)
  from recv_rtcm_data [where parse = echo_parse, OF a b c d e f g] a c d show ?thesis
    by (simp add: t)
qed

end
